theory Spec2Isabelle
  imports Main
begin

section \<open>Data model of the ensemble workflow\<close>

text \<open>
  The development embeds \<^verbatim>\<open>run_ensemble\<close> of
  \<^verbatim>\<open>examples/02_ensemble_workflow.py\<close>. The function is an orchestration of
  collaborators (data source, prognostic model, perturbation method, IO backend and the
  helper functions of the library). Collaborators are parameters of the model; every
  call to one may raise, so each returns a value of \<open>error + 'a\<close>.
\<close>

datatype error =
    KeyError string
  | RuntimeError
  | TypeError
  | OverflowError
  | ValueError
  | Failure string

text \<open>
  Coordinate values. A numpy coordinate array is the list of its entries: ensemble
  indices (int64), datetimes and timedeltas (int64 counts of their unit), variable
  names, and floating point values of an uninterpreted type \<open>'a\<close> (nothing is
  assumed about floating point arithmetic).
\<close>

datatype 'a cval =
    Index int
  | Datetime int
  | Timedelta int
  | Name string
  | Float 'a

text \<open>
  A coordinate system is an ordered dictionary from dimension names to coordinate arrays,
  kept as an association list in insertion order.
\<close>

type_synonym 'a coords = "(string \<times> 'a cval list) list"

text \<open>\<^verbatim>\<open>d[k]\<close>: raises KeyError for a missing key.\<close>

definition getitem :: "(string \<times> 'v) list \<Rightarrow> string \<Rightarrow> error + 'v" where
  "getitem d k = (case map_of d k of None \<Rightarrow> Inl (KeyError k) | Some v \<Rightarrow> Inr v)"

text \<open>\<^verbatim>\<open>d[k] = v\<close>: an existing key keeps its position, a new key goes last.\<close>

fun setitem :: "(string \<times> 'v) list \<Rightarrow> string \<Rightarrow> 'v \<Rightarrow> (string \<times> 'v) list" where
  "setitem [] k v = [(k, v)]"
| "setitem ((k', v') # d) k v =
     (if k' = k then (k, v) # d else (k', v') # setitem d k v)"

text \<open>
  \<^verbatim>\<open>l | r\<close>: a copy of \<open>l\<close> updated with every item of \<open>r\<close> in order.
\<close>

definition dict_or :: "(string \<times> 'v) list \<Rightarrow> (string \<times> 'v) list \<Rightarrow> (string \<times> 'v) list" where
  "dict_or l r = foldl (\<lambda>d (k, v). setitem d k v) l r"

text \<open>\<^verbatim>\<open>d.pop(k)\<close>: the value and the dictionary without the key; KeyError if missing.\<close>

definition pop :: "(string \<times> 'v) list \<Rightarrow> string \<Rightarrow> error + ('v \<times> (string \<times> 'v) list)" where
  "pop d k =
     (case map_of d k of
        None \<Rightarrow> Inl (KeyError k)
      | Some v \<Rightarrow> Inr (v, filter (\<lambda>p. fst p \<noteq> k) d))"

text \<open>\<^verbatim>\<open>np.arange(n)\<close> for an integer \<open>n\<close>: \<open>0, ..., n - 1\<close>, empty when \<open>n \<le> 0\<close>.\<close>

definition arange :: "int \<Rightarrow> 'a cval list" where
  "arange n = map Index [0..n - 1]"

subsection \<open>Tensors\<close>

text \<open>
  A tensor is its shape and its entries in row-major order. A well-formed tensor has as
  many entries as its shape says; every tensor a torch program holds is well-formed.
\<close>

record 'a tensor =
  shape :: "nat list"
  elems :: "'a list"

definition well_formed :: "'a tensor \<Rightarrow> bool" where
  "well_formed t = (length (elems t) = prod_list (shape t))"

definition ndim :: "'a tensor \<Rightarrow> nat" where
  "ndim t = length (shape t)"

text \<open>\<^verbatim>\<open>x.unsqueeze(0)\<close>: a new leading axis of size one.\<close>

definition unsqueeze0 :: "'a tensor \<Rightarrow> 'a tensor" where
  "unsqueeze0 t = t\<lparr>shape := 1 # shape t\<rparr>"

text \<open>The first \<open>n\<close> consecutive blocks of \<open>k\<close> entries.\<close>

fun chunks :: "nat \<Rightarrow> nat \<Rightarrow> 'a list \<Rightarrow> 'a list list" where
  "chunks 0 k d = []"
| "chunks (Suc n) k d = take k d # chunks n k (drop k d)"

text \<open>
  Tiling of row-major data of shape \<open>s # ss\<close>: every block along the leading axis is
  tiled by the remaining repeat counts, and the result is laid out \<open>r\<close> times.
\<close>

fun tile :: "nat list \<Rightarrow> nat list \<Rightarrow> 'a list \<Rightarrow> 'a list" where
  "tile (r # rs) (s # ss) d =
     concat (replicate r (concat (map (tile rs ss) (chunks s (prod_list ss) d))))"
| "tile rs ss d = d"

text \<open>
  torch and numpy compute on int64: a Python integer outside the int64 range cannot be
  converted, a product of int64 values wraps around modulo \<open>2^64\<close>, and the
  timedelta NaT (the least int64) stays NaT.
\<close>

definition wrap64 :: "int \<Rightarrow> int" where
  "wrap64 v = (v + 2 ^ 63) mod 2 ^ 64 - 2 ^ 63"

definition fits64 :: "int \<Rightarrow> bool" where
  "fits64 i = (- (2 ^ 63) \<le> i \<and> i < 2 ^ 63)"

definition NaT :: int where
  "NaT = - (2 ^ 63)"

text \<open>
  \<^verbatim>\<open>x.repeat(*reps)\<close> of torch: every repeat count must fit int64, there must be
  at least as many counts as axes, and none may be negative (RuntimeError in each case);
  missing leading axes count as size one; axis \<open>i\<close> of the result has size
  \<open>reps[i] * shape[i]\<close>. Memory is not modelled.
\<close>

definition repeat :: "int list \<Rightarrow> 'a tensor \<Rightarrow> error + 'a tensor" where
  "repeat reps t =
     (if list_ex (\<lambda>r. \<not> fits64 r) reps then Inl RuntimeError
      else if length reps < ndim t then Inl RuntimeError
      else if list_ex (\<lambda>r. r < 0) reps then Inl RuntimeError
      else
        (let sh = replicate (length reps - ndim t) 1 @ shape t;
             rs = map nat reps
         in Inr \<lparr>shape = map2 (*) rs sh, elems = tile rs sh (elems t)\<rparr>))"

text \<open>\<^verbatim>\<open>x[i]\<close>: the \<open>i\<close>-th slice along the leading axis (IndexError out of range).\<close>

definition select0 :: "'a tensor \<Rightarrow> nat \<Rightarrow> 'a tensor option" where
  "select0 t i =
     (case shape t of
        [] \<Rightarrow> None
      | n # ss \<Rightarrow>
          if i < n
          then Some \<lparr>shape = ss, elems = take (prod_list ss) (drop (i * prod_list ss) (elems t))\<rparr>
          else None)"

text \<open>Size of the leading axis, if there is one.\<close>

definition leading :: "'a tensor \<Rightarrow> nat option" where
  "leading t = (case shape t of [] \<Rightarrow> None | n # ss \<Rightarrow> Some n)"

text \<open>
  Broadcasting for the in-place addition \<^verbatim>\<open>x += noise\<close>: the shape of the noise,
  aligned at the trailing axes of \<open>x\<close>, must agree with it or be one on every axis; the
  shape of \<open>x\<close> never changes. A mismatch is a RuntimeError.
\<close>

definition broadcastable :: "nat list \<Rightarrow> nat list \<Rightarrow> bool" where
  "broadcastable ns xs =
     (length ns \<le> length xs \<and>
      list_all2 (\<lambda>n x. n = x \<or> n = 1) ns (drop (length xs - length ns) xs))"

fun unravel :: "nat list \<Rightarrow> nat \<Rightarrow> nat list" where
  "unravel [] k = []"
| "unravel (s # ss) k = (k div prod_list ss) # unravel ss (k mod prod_list ss)"

fun ravel :: "nat list \<Rightarrow> nat list \<Rightarrow> nat" where
  "ravel (s # ss) (i # is) = i * prod_list ss + ravel ss is"
| "ravel ss is = 0"

definition source_index :: "nat list \<Rightarrow> nat list \<Rightarrow> nat \<Rightarrow> nat" where
  "source_index xs ns k =
     ravel ns (map2 (\<lambda>n i. if n = 1 then 0 else i) ns
                 (drop (length xs - length ns) (unravel xs k)))"

definition iadd :: "('a \<Rightarrow> 'a \<Rightarrow> 'a) \<Rightarrow> 'a tensor \<Rightarrow> 'a tensor \<Rightarrow> error + 'a tensor" where
  "iadd add x noise =
     (if broadcastable (shape noise) (shape x)
      then Inr (x\<lparr>elems :=
             map (\<lambda>k. add (elems x ! k) (elems noise ! source_index (shape x) (shape noise) k))
               [0..<length (elems x)]\<rparr>)
      else Inl RuntimeError)"

subsection \<open>The lead-time axis\<close>

text \<open>
  One entry of \<^verbatim>\<open>array * i\<close> for a Python integer \<open>i\<close>. Datetimes and
  strings have no multiplication (TypeError); floating point entries are multiplied by
  the uninterpreted \<open>mul\<close>.
\<close>

fun scale :: "('a \<Rightarrow> int \<Rightarrow> 'a) \<Rightarrow> 'a cval \<Rightarrow> int \<Rightarrow> error + 'a cval" where
  "scale mul (Index n) i =
     (if fits64 i then Inr (Index (wrap64 (n * i))) else Inl OverflowError)"
| "scale mul (Timedelta d) i =
     (if fits64 i then Inr (Timedelta (if d = NaT then NaT else wrap64 (d * i)))
      else Inl OverflowError)"
| "scale mul (Float f) i = Inr (Float (mul f i))"
| "scale mul (Datetime t) i = Inl TypeError"
| "scale mul (Name s) i = Inl TypeError"

text \<open>A comprehension whose body may raise: the first exception ends it.\<close>

fun mapE :: "('x \<Rightarrow> error + 'y) \<Rightarrow> 'x list \<Rightarrow> error + 'y list" where
  "mapE f [] = Inr []"
| "mapE f (x # xs) =
     (case f x of
        Inl e \<Rightarrow> Inl e
      | Inr y \<Rightarrow> (case mapE f xs of Inl e \<Rightarrow> Inl e | Inr ys \<Rightarrow> Inr (y # ys)))"

text \<open>
  \<^verbatim>\<open>np.asarray([output_coords["lead_time"] * i for i in range(nsteps + 1)]).flatten()\<close>:
  one row per \<open>i\<close>, the rows laid out one after the other. The key is looked up once per
  \<open>i\<close>, so nothing is looked up when the range is empty.
\<close>

definition lead_time_axis ::
  "('a \<Rightarrow> int \<Rightarrow> 'a) \<Rightarrow> 'a coords \<Rightarrow> int \<Rightarrow> error + 'a cval list" where
  "lead_time_axis mul output nsteps =
     (case mapE (\<lambda>i. case getitem output ''lead_time'' of
                        Inl e \<Rightarrow> Inl e
                      | Inr a \<Rightarrow> mapE (\<lambda>v. scale mul v i) a) [0..nsteps] of
        Inl e \<Rightarrow> Inl e
      | Inr rows \<Rightarrow> Inr (concat rows))"

subsection \<open>Collaborators\<close>

datatype device = Cuda | Cpu

datatype time_in = TimeStr string | TimeDatetime int | TimeNumpy int

text \<open>
  What \<^verbatim>\<open>next\<close> on the prognostic iterator does at one position of the sequence:
  it yields a state and its coordinates, it is exhausted, or it raises.
\<close>

datatype 'a item =
    Yield "'a tensor" "'a coords"
  | StopIteration
  | Raise error

text \<open>
  The prognostic model: its coordinate dictionaries and \<^verbatim>\<open>create_iterator\<close>, which
  gives the sequence by position (the loop only ever asks for the next element).
\<close>

record 'a prognostic =
  input_coords :: "'a coords"
  output_coords :: "'a coords"
  create_iterator :: "'a tensor \<Rightarrow> 'a coords \<Rightarrow> error + (nat \<Rightarrow> 'a item)"

text \<open>
  \<^verbatim>\<open>io.write(*extract_coords(x, coords))\<close> passes the tuple that
  \<^verbatim>\<open>extract_coords\<close> returns as the positional arguments of the write.
\<close>

datatype 'a arg =
    TensorArg "'a tensor"
  | TensorsArg "'a tensor list"
  | CoordsArg "'a coords"
  | ArrayArg "'a cval list"

fun tensors_of :: "'a arg \<Rightarrow> 'a tensor list" where
  "tensors_of (TensorArg t) = [t]"
| "tensors_of (TensorsArg ts) = ts"
| "tensors_of (CoordsArg c) = []"
| "tensors_of (ArrayArg a) = []"

text \<open>
  The library functions and methods that \<^verbatim>\<open>run_ensemble\<close> calls and this file
  does not define: \<^verbatim>\<open>torch.cuda.is_available\<close>, \<^verbatim>\<open>prognostic.to\<close>,
  \<^verbatim>\<open>to_time_array\<close>, \<^verbatim>\<open>fetch_data\<close>, \<^verbatim>\<open>map_coords\<close>,
  \<^verbatim>\<open>extract_coords\<close>, the two methods of the IO backend (acting on the
  backend's state \<open>'s\<close>) and floating point arithmetic.
\<close>

record ('a, 'd, 's) env =
  cuda_available :: bool
  to_device :: "device \<Rightarrow> 'a prognostic \<Rightarrow> error + 'a prognostic"
  to_time_array :: "time_in list \<Rightarrow> error + 'a cval list"
  fetch_data ::
    "'d \<Rightarrow> 'a cval list \<Rightarrow> 'a cval list \<Rightarrow> 'a cval list \<Rightarrow> device \<Rightarrow> error + ('a tensor \<times> 'a coords)"
  map_coords :: "'a tensor \<Rightarrow> 'a coords \<Rightarrow> 'a coords \<Rightarrow> error + ('a tensor \<times> 'a coords)"
  extract_coords :: "'a tensor \<Rightarrow> 'a coords \<Rightarrow> error + 'a arg list"
  io_add_array :: "'s \<Rightarrow> 'a coords \<Rightarrow> 'a cval list \<Rightarrow> error + 's"
  io_write :: "'s \<Rightarrow> 'a arg list \<Rightarrow> error + 's"
  fadd :: "'a \<Rightarrow> 'a \<Rightarrow> 'a"
  fmul :: "'a \<Rightarrow> int \<Rightarrow> 'a"

text \<open>
  Modelled from the spec: \<^verbatim>\<open>to_time_array\<close> is not among the sources. The spec
  says the run resolves the time list into a canonical timestamp array and fails if the
  list is empty or unparsable. Strings are parsed by \<open>parse\<close>; datetimes and numpy
  datetimes are timestamps already.
\<close>

definition to_time_array_spec :: "(string \<Rightarrow> int option) \<Rightarrow> time_in list \<Rightarrow> error + 'a cval list" where
  "to_time_array_spec parse time =
     (if time = [] then Inl ValueError
      else mapE (\<lambda>t. case t of
                       TimeStr s \<Rightarrow> (case parse s of None \<Rightarrow> Inl ValueError | Some n \<Rightarrow> Inr (Datetime n))
                     | TimeDatetime n \<Rightarrow> Inr (Datetime n)
                     | TimeNumpy n \<Rightarrow> Inr (Datetime n)) time)"

subsection \<open>Observable events\<close>

text \<open>
  A run is observed through the calls it makes, in order. A call to the sink names the
  sink object (a reference into the store of backend states) and carries the arguments
  of the call. An exception is recorded where it is raised; the end of the prognostic
  sequence, which the \<^verbatim>\<open>for\<close> statement handles, is an event of its own.
\<close>

type_synonym ref = nat

datatype callee =
    ToDevice
  | ToTimeArray
  | FetchData
  | MapCoords
  | PerturbationMethod
  | CreateIterator
  | NextItem
  | ExtractCoords

datatype 'a event =
    Call callee
  | AddArray ref "'a coords" "'a cval list"
  | Write ref "'a arg list"
  | Raised error
  | Exhausted

section \<open>The workflow\<close>

text \<open>
  Lines 115 to 126: device choice, \<^verbatim>\<open>prognostic.to(device)\<close>,
  \<^verbatim>\<open>to_time_array(time)\<close>, the two lookups in \<^verbatim>\<open>prognostic.input_coords\<close>
  and \<^verbatim>\<open>fetch_data\<close>.
\<close>

definition fetch_phase ::
  "('a, 'd, 's) env \<Rightarrow> time_in list \<Rightarrow> 'a prognostic \<Rightarrow> 'd \<Rightarrow>
   'a event list \<times> (error + ('a prognostic \<times> 'a tensor \<times> 'a coords))" where
  "fetch_phase E time prognostic data =
     (let device = (if cuda_available E then Cuda else Cpu) in
      case to_device E device prognostic of
        Inl e \<Rightarrow> ([Call ToDevice, Raised e], Inl e)
      | Inr prognostic \<Rightarrow>
     (case to_time_array E time of
        Inl e \<Rightarrow> ([Call ToDevice, Call ToTimeArray, Raised e], Inl e)
      | Inr time \<Rightarrow>
     (case getitem (input_coords prognostic) ''lead_time'' of
        Inl e \<Rightarrow> ([Call ToDevice, Call ToTimeArray, Raised e], Inl e)
      | Inr lead_time \<Rightarrow>
     (case getitem (input_coords prognostic) ''variable'' of
        Inl e \<Rightarrow> ([Call ToDevice, Call ToTimeArray, Raised e], Inl e)
      | Inr variable \<Rightarrow>
     (case fetch_data E data time lead_time variable device of
        Inl e \<Rightarrow> ([Call ToDevice, Call ToTimeArray, Call FetchData, Raised e], Inl e)
      | Inr (x, coords) \<Rightarrow>
          ([Call ToDevice, Call ToTimeArray, Call FetchData], Inr (prognostic, x, coords)))))))"

text \<open>
  Lines 130 and 131:
  \<^verbatim>\<open>x = x.unsqueeze(0).repeat(nensemble, *([1] * x.ndim))\<close> and
  \<^verbatim>\<open>coords = {"ensemble": np.arange(nensemble)} | coords\<close>.
\<close>

definition expand_ensemble ::
  "int \<Rightarrow> 'a tensor \<Rightarrow> 'a coords \<Rightarrow> error + ('a tensor \<times> 'a coords)" where
  "expand_ensemble nensemble x coords =
     (case repeat (nensemble # replicate (ndim x) 1) (unsqueeze0 x) of
        Inl e \<Rightarrow> Inl e
      | Inr x \<Rightarrow> Inr (x, dict_or [(''ensemble'', arange nensemble)] coords))"

text \<open>
  Lines 134 to 139: \<^verbatim>\<open>total_coords\<close> is a copy of the coordinates with the
  lead-time axis set, and \<^verbatim>\<open>var_names = total_coords.pop("variable")\<close>.
\<close>

definition output_schema ::
  "('a \<Rightarrow> int \<Rightarrow> 'a) \<Rightarrow> 'a prognostic \<Rightarrow> int \<Rightarrow> 'a coords \<Rightarrow> error + ('a coords \<times> 'a cval list)" where
  "output_schema mul prognostic nsteps coords =
     (case lead_time_axis mul (output_coords prognostic) nsteps of
        Inl e \<Rightarrow> Inl e
      | Inr lead \<Rightarrow>
     (case pop (setitem coords ''lead_time'' lead) ''variable'' of
        Inl e \<Rightarrow> Inl e
      | Inr (var_names, total_coords) \<Rightarrow> Inr (total_coords, var_names)))"

text \<open>
  Lines 143 to 146: \<^verbatim>\<open>map_coords\<close>, then
  \<^verbatim>\<open>x += perturbation_method(x, coords)\<close>.
\<close>

definition perturb_phase ::
  "('a, 'd, 's) env \<Rightarrow> 'a prognostic \<Rightarrow> ('a tensor \<Rightarrow> 'a coords \<Rightarrow> error + 'a tensor) \<Rightarrow>
   'a tensor \<Rightarrow> 'a coords \<Rightarrow> 'a event list \<times> (error + ('a tensor \<times> 'a coords))" where
  "perturb_phase E prognostic perturbation_method x coords =
     (case map_coords E x coords (input_coords prognostic) of
        Inl e \<Rightarrow> ([Call MapCoords, Raised e], Inl e)
      | Inr (x, coords) \<Rightarrow>
     (case perturbation_method x coords of
        Inl e \<Rightarrow> ([Call MapCoords, Call PerturbationMethod, Raised e], Inl e)
      | Inr noise \<Rightarrow>
     (case iadd (fadd E) x noise of
        Inl e \<Rightarrow> ([Call MapCoords, Call PerturbationMethod, Raised e], Inl e)
      | Inr x \<Rightarrow> ([Call MapCoords, Call PerturbationMethod], Inr (x, coords)))))"

text \<open>
  Lines 153 to 157, the loop over \<^verbatim>\<open>enumerate(model)\<close>: take the next element
  (the loop ends when the iterator is exhausted), write its extraction to the sink, and
  break when \<^verbatim>\<open>step == nsteps\<close>. The loop need not end, so its result is
  optional: \<open>None\<close> is a loop that runs forever.
\<close>

partial_function (option) loop ::
  "('a tensor \<Rightarrow> 'a coords \<Rightarrow> error + 'a arg list) \<Rightarrow> ('s \<Rightarrow> 'a arg list \<Rightarrow> error + 's) \<Rightarrow>
   int \<Rightarrow> ref \<Rightarrow> (nat \<Rightarrow> 'a item) \<Rightarrow> nat \<Rightarrow> (ref \<Rightarrow> 's) \<Rightarrow>
   ('a event list \<times> (ref \<Rightarrow> 's) \<times> (error + unit)) option" where
  "loop extract write nsteps io model step h =
     (case model step of
        StopIteration \<Rightarrow> Some ([Call NextItem, Exhausted], h, Inr ())
      | Raise e \<Rightarrow> Some ([Call NextItem, Raised e], h, Inl e)
      | Yield x coords \<Rightarrow>
     (case extract x coords of
        Inl e \<Rightarrow> Some ([Call NextItem, Call ExtractCoords, Raised e], h, Inl e)
      | Inr args \<Rightarrow>
     (case write (h io) args of
        Inl e \<Rightarrow>
          Some ([Call NextItem, Call ExtractCoords, Write io args, Raised e], h, Inl e)
      | Inr s \<Rightarrow>
          if int step = nsteps
          then Some ([Call NextItem, Call ExtractCoords, Write io args], h(io := s), Inr ())
          else Option.bind (loop extract write nsteps io model (Suc step) (h(io := s)))
                 (\<lambda>(evs, h', r).
                    Some ([Call NextItem, Call ExtractCoords, Write io args] @ evs, h', r)))))"

declare loop.simps [code]

text \<open>
  Lines 113 to 149, everything before the loop: the events, the store of backend states
  (\<^verbatim>\<open>io.add_array\<close> changes the state of the sink) and the prognostic iterator,
  or the exception that ended the run. Logging and the progress bar are left out: they
  touch neither the source nor the sink.
\<close>

definition prepare ::
  "('a, 'd, 's) env \<Rightarrow> time_in list \<Rightarrow> int \<Rightarrow> int \<Rightarrow> 'a prognostic \<Rightarrow>
   ('a tensor \<Rightarrow> 'a coords \<Rightarrow> error + 'a tensor) \<Rightarrow> 'd \<Rightarrow> ref \<Rightarrow> (ref \<Rightarrow> 's) \<Rightarrow>
   'a event list \<times> (ref \<Rightarrow> 's) \<times> (error + (nat \<Rightarrow> 'a item))" where
  "prepare E time nsteps nensemble prognostic perturbation_method data io h =
     (case fetch_phase E time prognostic data of
        (evs1, Inl e) \<Rightarrow> (evs1, h, Inl e)
      | (evs1, Inr (prognostic, x, coords)) \<Rightarrow>
     (case expand_ensemble nensemble x coords of
        Inl e \<Rightarrow> (evs1 @ [Raised e], h, Inl e)
      | Inr (x, coords) \<Rightarrow>
     (case output_schema (fmul E) prognostic nsteps coords of
        Inl e \<Rightarrow> (evs1 @ [Raised e], h, Inl e)
      | Inr (total_coords, var_names) \<Rightarrow>
     (case io_add_array E (h io) total_coords var_names of
        Inl e \<Rightarrow> (evs1 @ [AddArray io total_coords var_names, Raised e], h, Inl e)
      | Inr s \<Rightarrow>
     (case perturb_phase E prognostic perturbation_method x coords of
        (evs2, Inl e) \<Rightarrow>
          (evs1 @ [AddArray io total_coords var_names] @ evs2, h(io := s), Inl e)
      | (evs2, Inr (x, coords)) \<Rightarrow>
     (case create_iterator prognostic x coords of
        Inl e \<Rightarrow>
          (evs1 @ [AddArray io total_coords var_names] @ evs2 @
           [Call CreateIterator, Raised e], h(io := s), Inl e)
      | Inr model \<Rightarrow>
          (evs1 @ [AddArray io total_coords var_names] @ evs2 @ [Call CreateIterator],
           h(io := s), Inr model)))))))"

text \<open>
  \<^verbatim>\<open>run_ensemble\<close>: the events of the run, the store of backend states after it,
  and the exception raised or the reference returned (line 160 returns \<^verbatim>\<open>io\<close>).
  \<open>None\<close> is a run that never returns.
\<close>

definition run_ensemble ::
  "('a, 'd, 's) env \<Rightarrow> time_in list \<Rightarrow> int \<Rightarrow> int \<Rightarrow> 'a prognostic \<Rightarrow>
   ('a tensor \<Rightarrow> 'a coords \<Rightarrow> error + 'a tensor) \<Rightarrow> 'd \<Rightarrow> ref \<Rightarrow> (ref \<Rightarrow> 's) \<Rightarrow>
   ('a event list \<times> (ref \<Rightarrow> 's) \<times> (error + ref)) option" where
  "run_ensemble E time nsteps nensemble prognostic perturbation_method data io h =
     (case prepare E time nsteps nensemble prognostic perturbation_method data io h of
        (evs, h1, Inl e) \<Rightarrow> Some (evs, h1, Inl e)
      | (evs, h1, Inr model) \<Rightarrow>
     (case loop (extract_coords E) (io_write E) nsteps io model 0 h1 of
        None \<Rightarrow> None
      | Some (evs', h', Inl e) \<Rightarrow> Some (evs @ evs', h', Inl e)
      | Some (evs', h', Inr u) \<Rightarrow> Some (evs @ evs', h', Inr io)))"

subsection \<open>Reading a run\<close>

text \<open>The argument tuples of the writes that the sink \<open>io\<close> receives, in order.\<close>

fun writes :: "ref \<Rightarrow> 'a event list \<Rightarrow> 'a arg list list" where
  "writes io [] = []"
| "writes io (Write r a # evs) = (if r = io then a # writes io evs else writes io evs)"
| "writes io (ev # evs) = writes io evs"



text \<open>The tensors written to the sink \<open>io\<close>.\<close>

fun written_tensors :: "ref \<Rightarrow> 'a event list \<Rightarrow> 'a tensor list" where
  "written_tensors io [] = []"
| "written_tensors io (Write r a # evs) =
     (if r = io then concat (map tensors_of a) @ written_tensors io evs
      else written_tensors io evs)"
| "written_tensors io (ev # evs) = written_tensors io evs"

text \<open>The calls that the sink \<open>io\<close> receives, in order.\<close>

fun sink_events :: "ref \<Rightarrow> 'a event list \<Rightarrow> 'a event list" where
  "sink_events io [] = []"
| "sink_events io (AddArray r c n # evs) =
     (if r = io then AddArray r c n # sink_events io evs else sink_events io evs)"
| "sink_events io (Write r a # evs) =
     (if r = io then Write r a # sink_events io evs else sink_events io evs)"
| "sink_events io (ev # evs) = sink_events io evs"

fun is_write :: "'a event \<Rightarrow> bool" where
  "is_write (Write r a) = True"
| "is_write ev = False"

text \<open>The exceptions raised during a run, in order.\<close>

fun raised :: "'a event list \<Rightarrow> error list" where
  "raised [] = []"
| "raised (Raised e # evs) = e # raised evs"
| "raised (ev # evs) = raised evs"

text \<open>
  The first \<open>k\<close> passes through the body of the loop from position \<open>step\<close> of the
  prognostic sequence, read off the collaborators alone: the element is yielded,
  \<^verbatim>\<open>extract_coords\<close> succeeds on it and the sink accepts the write. The result
  is the calls made and the store of sink states they leave; \<open>None\<close> when one of the
  \<open>k\<close> passes fails or the sequence ends.
\<close>

fun iterations ::
  "('a tensor \<Rightarrow> 'a coords \<Rightarrow> error + 'a arg list) \<Rightarrow> ('s \<Rightarrow> 'a arg list \<Rightarrow> error + 's) \<Rightarrow>
   ref \<Rightarrow> (nat \<Rightarrow> 'a item) \<Rightarrow> nat \<Rightarrow> nat \<Rightarrow> (ref \<Rightarrow> 's) \<Rightarrow>
   ('a event list \<times> (ref \<Rightarrow> 's)) option" where
  "iterations extract write io model step 0 h = Some ([], h)"
| "iterations extract write io model step (Suc k) h =
     (case model step of
        Yield x coords \<Rightarrow>
          (case extract x coords of
             Inr args \<Rightarrow>
               (case write (h io) args of
                  Inr s \<Rightarrow>
                    (case iterations extract write io model (Suc step) k (h(io := s)) of
                       Some (evs, h') \<Rightarrow>
                         Some ([Call NextItem, Call ExtractCoords, Write io args] @ evs, h')
                     | None \<Rightarrow> None)
                | Inl e \<Rightarrow> None)
           | Inl e \<Rightarrow> None)
      | StopIteration \<Rightarrow> None
      | Raise e \<Rightarrow> None)"

text \<open>An all-zero field of the shape of \<open>x\<close>, for the zero \<open>z\<close> of the entries.\<close>

definition zeros_like :: "'a \<Rightarrow> 'a tensor \<Rightarrow> 'a tensor" where
  "zeros_like z x = \<lparr>shape = shape x, elems = replicate (length (elems x)) z\<rparr>"

subsection \<open>What an observer sees of a run\<close>

text \<open>The events and the result of a run, without the store of backend states.\<close>

definition outcome :: "('a event list \<times> (ref \<Rightarrow> 's) \<times> (error + ref)) option \<Rightarrow> ('a event list \<times> (error + ref)) option" where
  "outcome res = (case res of None \<Rightarrow> None | Some (evs, h, r) \<Rightarrow> Some (evs, r))"

subsection \<open>A concrete run\<close>

text \<open>
  A small instance of every collaborator: one initial time, a state of shape
  \<open>[1, 1, 2]\<close> (time, lead time, variable), a prognostic model with a lead-time step of
  six units that yields its input state at every step, a perturbation that adds one to
  every entry, and a sink whose state counts the writes it received.
\<close>

definition demo_x :: "int tensor" where
  "demo_x = \<lparr>shape = [1, 1, 2], elems = [10, 20]\<rparr>"

definition demo_prognostic :: "int prognostic" where
  "demo_prognostic =
     \<lparr>input_coords = [(''lead_time'', [Timedelta 0]), (''variable'', [Name ''u'', Name ''v''])],
      output_coords = [(''lead_time'', [Timedelta 6]), (''variable'', [Name ''u'', Name ''v''])],
      create_iterator = (\<lambda>x c. Inr (\<lambda>k. Yield x (setitem c ''lead_time'' [Timedelta (6 * int k)])))\<rparr>"

definition demo_parse :: "string \<Rightarrow> int option" where
  "demo_parse s = (if s = ''2024-01-01'' then Some 19723 else None)"

definition demo_env :: "(int, unit, nat) env" where
  "demo_env =
     \<lparr>cuda_available = False,
      to_device = (\<lambda>d p. Inr p),
      to_time_array = to_time_array_spec demo_parse,
      fetch_data = (\<lambda>src t lt v dev. Inr (demo_x, [(''time'', t), (''lead_time'', lt), (''variable'', v)])),
      map_coords = (\<lambda>x c ic. Inr (x, c)),
      extract_coords = (\<lambda>x c. Inr [TensorArg x, CoordsArg c]),
      io_add_array = (\<lambda>s c n. Inr s),
      io_write = (\<lambda>s a. Inr (Suc s)),
      fadd = (+),
      fmul = (*)\<rparr>"

definition demo_perturbation :: "int tensor \<Rightarrow> int coords \<Rightarrow> error + int tensor" where
  "demo_perturbation x c = Inr \<lparr>shape = shape x, elems = replicate (length (elems x)) 1\<rparr>"

definition demo_run ::
  "int \<Rightarrow> (int event list \<times> (ref \<Rightarrow> nat) \<times> (error + ref)) option" where
  "demo_run nsteps =
     run_ensemble demo_env [TimeStr ''2024-01-01''] nsteps 2 demo_prognostic demo_perturbation
       () 0 (\<lambda>r. 0)"

text \<open>
  A run whose perturbation method returns noise of a shape that cannot be broadcast to
  the state.
\<close>

definition demo_mismatch ::
  "(int event list \<times> (ref \<Rightarrow> nat) \<times> (error + ref)) option" where
  "demo_mismatch =
     run_ensemble demo_env [TimeStr ''2024-01-01''] 1 2 demo_prognostic
       (\<lambda>x c. Inr \<lparr>shape = [3], elems = [0, 0, 0]\<rparr>) () 0 (\<lambda>r. 0)"

text \<open>A run whose data source cannot provide the requested variables.\<close>

definition demo_unavailable ::
  "(int event list \<times> (ref \<Rightarrow> nat) \<times> (error + ref)) option" where
  "demo_unavailable =
     run_ensemble
       (demo_env\<lparr>fetch_data := \<lambda>src t lt v dev. Inl (Failure ''variable unavailable'')\<rparr>)
       [TimeStr ''2024-01-01''] 1 2 demo_prognostic demo_perturbation () 0 (\<lambda>r. 0)"




section \<open>Properties of the loop\<close>

lemma writes_append:
  "writes io (xs @ ys) = writes io xs @ writes io ys"
  by (induction io xs rule: writes.induct) simp_all

lemma written_tensors_append:
  "written_tensors io (xs @ ys) = written_tensors io xs @ written_tensors io ys"
  by (induction io xs rule: written_tensors.induct) simp_all

lemma sink_events_append:
  "sink_events io (xs @ ys) = sink_events io xs @ sink_events io ys"
  by (induction io xs rule: sink_events.induct) simp_all

lemma raised_append: "raised (xs @ ys) = raised xs @ raised ys"
  by (induction xs rule: raised.induct) simp_all


text \<open>One turn of the loop, read off a result.\<close>

lemma loop_cases:
  assumes "loop ex wr nsteps io model step h = Some (evs, h', r)"
  obtains
    (exhausted) "model step = StopIteration" "evs = [Call NextItem, Exhausted]" "h' = h" "r = Inr ()"
  | (next_raises) e where "model step = Raise e" "evs = [Call NextItem, Raised e]" "h' = h" "r = Inl e"
  | (extract_raises) x c e where "model step = Yield x c" "ex x c = Inl e"
      "evs = [Call NextItem, Call ExtractCoords, Raised e]" "h' = h" "r = Inl e"
  | (write_raises) x c args e where "model step = Yield x c" "ex x c = Inr args"
      "wr (h io) args = Inl e"
      "evs = [Call NextItem, Call ExtractCoords, Write io args, Raised e]" "h' = h" "r = Inl e"
  | (break) x c args s where "model step = Yield x c" "ex x c = Inr args"
      "wr (h io) args = Inr s" "int step = nsteps"
      "evs = [Call NextItem, Call ExtractCoords, Write io args]" "h' = h(io := s)" "r = Inr ()"
  | (continue) x c args s evs' where "model step = Yield x c" "ex x c = Inr args"
      "wr (h io) args = Inr s" "int step \<noteq> nsteps"
      "loop ex wr nsteps io model (Suc step) (h(io := s)) = Some (evs', h', r)"
      "evs = [Call NextItem, Call ExtractCoords, Write io args] @ evs'"
proof -
  from assms have
    "(case model step of
        Yield x coords \<Rightarrow>
          (case ex x coords of
             Inl e \<Rightarrow> Some ([Call NextItem, Call ExtractCoords, Raised e], h, Inl e)
           | Inr args \<Rightarrow>
               (case wr (h io) args of
                  Inl e \<Rightarrow>
                    Some ([Call NextItem, Call ExtractCoords, Write io args, Raised e], h, Inl e)
                | Inr s \<Rightarrow>
                    if int step = nsteps
                    then Some ([Call NextItem, Call ExtractCoords, Write io args], h(io := s), Inr ())
                    else Option.bind (loop ex wr nsteps io model (Suc step) (h(io := s)))
                           (\<lambda>(evs, h', r).
                              Some ([Call NextItem, Call ExtractCoords, Write io args] @ evs, h', r))))
      | StopIteration \<Rightarrow> Some ([Call NextItem, Exhausted], h, Inr ())
      | Raise e \<Rightarrow> Some ([Call NextItem, Raised e], h, Inl e)) = Some (evs, h', r)"
    by (subst (asm) loop.simps) simp
  then show thesis
    by (auto split: item.splits sum.splits if_splits prod.splits bind_splits
        intro: exhausted next_raises extract_raises write_raises break continue)
qed

lemma loop_induct [consumes 1, case_names exhausted next_raises extract_raises write_raises break continue]:
  assumes run: "loop ex wr nsteps io model step h = Some (evs, h', r)"
    and exhausted: "\<And>step h. model step = StopIteration \<Longrightarrow>
          P step h [Call NextItem, Exhausted] h (Inr ())"
    and next_raises: "\<And>step h e. model step = Raise e \<Longrightarrow>
          P step h [Call NextItem, Raised e] h (Inl e)"
    and extract_raises: "\<And>step h x c e. model step = Yield x c \<Longrightarrow> ex x c = Inl e \<Longrightarrow>
          P step h [Call NextItem, Call ExtractCoords, Raised e] h (Inl e)"
    and write_raises: "\<And>step h x c args e. model step = Yield x c \<Longrightarrow> ex x c = Inr args \<Longrightarrow>
          wr (h io) args = Inl e \<Longrightarrow>
          P step h [Call NextItem, Call ExtractCoords, Write io args, Raised e] h (Inl e)"
    and break: "\<And>step h x c args s. model step = Yield x c \<Longrightarrow> ex x c = Inr args \<Longrightarrow>
          wr (h io) args = Inr s \<Longrightarrow> int step = nsteps \<Longrightarrow>
          P step h [Call NextItem, Call ExtractCoords, Write io args] (h(io := s)) (Inr ())"
    and continue: "\<And>step h x c args s evs' h' r. model step = Yield x c \<Longrightarrow> ex x c = Inr args \<Longrightarrow>
          wr (h io) args = Inr s \<Longrightarrow> int step \<noteq> nsteps \<Longrightarrow>
          loop ex wr nsteps io model (Suc step) (h(io := s)) = Some (evs', h', r) \<Longrightarrow>
          P (Suc step) (h(io := s)) evs' h' r \<Longrightarrow>
          P step h ([Call NextItem, Call ExtractCoords, Write io args] @ evs') h' r"
  shows "P step h evs h' r"
  using run
proof (induction "length evs" arbitrary: step h evs rule: less_induct)
  case less
  from less.prems show ?case
  proof (cases rule: loop_cases)
    case (continue x c args s evs')
    then have "length evs' < length evs" by simp
    from less.hyps [OF this continue(5)] continue show ?thesis
      using assms(7) by simp
  qed (simp_all add: assms(2-6))
qed

lemma loop_raised:
  assumes "loop ex wr nsteps io model step h = Some (evs, h', r)"
  shows "raised evs = (case r of Inl e \<Rightarrow> [e] | Inr u \<Rightarrow> []) \<and>
         (\<forall>e. r = Inl e \<longrightarrow> last evs = Raised e)"
  using assms
proof (induction rule: loop_induct)
  case (continue step h x c args s evs' h' r)
  from continue(5) have "evs' \<noteq> []"
    by (cases rule: loop_cases) simp_all
  with continue(6) show ?case by (simp add: raised_append)
qed simp_all

lemma loop_sink:
  assumes "loop ex wr nsteps io model step h = Some (evs, h', r)"
  shows "list_all is_write (sink_events io evs)"
  using assms by (induction rule: loop_induct) simp_all

lemma loop_leading:
  assumes "loop ex wr nsteps io model step h = Some (evs, h', r)"
    and "\<And>k x c. model k = Yield x c \<Longrightarrow> leading x = n"
    and "\<And>x c a t. ex x c = Inr a \<Longrightarrow> t \<in> set (concat (map tensors_of a)) \<Longrightarrow>
           leading t = leading x"
  shows "\<forall>t \<in> set (written_tensors io evs). leading t = n"
  using assms(1)
proof (induction rule: loop_induct)
  case (write_raises step h x c args e)
  have args: "leading t = n" if "t \<in> set (concat (map tensors_of args))" for t
    using assms(3) [OF write_raises(2) that] assms(2) [OF write_raises(1)] by simp
  have ws: "written_tensors io [Call NextItem, Call ExtractCoords, Write io args, Raised e]
      = concat (map tensors_of args)"
    by simp
  show ?case unfolding ws using args by blast
next
  case (break step h x c args s)
  have args: "leading t = n" if "t \<in> set (concat (map tensors_of args))" for t
    using assms(3) [OF break(2) that] assms(2) [OF break(1)] by simp
  have ws: "written_tensors io [Call NextItem, Call ExtractCoords, Write io args]
      = concat (map tensors_of args)"
    by simp
  show ?case unfolding ws using args by blast
next
  case (continue step h x c args s evs' h' r)
  have args: "leading t = n" if "t \<in> set (concat (map tensors_of args))" for t
    using assms(3) [OF continue(2) that] assms(2) [OF continue(1)] by simp
  have ws: "written_tensors io ([Call NextItem, Call ExtractCoords, Write io args] @ evs')
      = concat (map tensors_of args) @ written_tensors io evs'"
    by simp
  show ?case unfolding ws set_append using args continue(6) by blast
qed simp_all


section \<open>Properties of the run\<close>

lemma outcome_SomeD:
  "outcome res = Some (evs, r) \<Longrightarrow> \<exists>h. res = Some (evs, h, r)"
  by (auto simp: outcome_def split: option.splits prod.splits)

lemma demo_run_1_returns: "map_option snd (outcome (demo_run 1)) = Some (Inr 0)"
  by code_simp

text \<open>
  Claim C9: on success the run returns the very same sink object it was given: the
  reference returned is the reference \<open>io\<close> passed in.
\<close>

theorem run_ensemble_returns_io:
  "run_ensemble E time nsteps nensemble prognostic perturbation_method data io h
     = Some (evs, h', Inr r) \<Longrightarrow> r = io"
  by (auto simp: run_ensemble_def split: prod.splits sum.splits option.splits)

theorem run_ensemble_returns_io_witness:
  "\<exists>evs h'. demo_run 1 = Some (evs, h', Inr 0)"
proof -
  from demo_run_1_returns obtain evs r where "outcome (demo_run 1) = Some (evs, Inr r)"
    by (cases "outcome (demo_run 1)") auto
  then obtain h' where run: "demo_run 1 = Some (evs, h', Inr r)"
    by (auto dest: outcome_SomeD)
  from run_ensemble_returns_io [OF run [unfolded demo_run_def]] have "r = 0" .
  with run show ?thesis by blast
qed

text \<open>No call before the loop is a write, and the phases raise at most once, at their end.\<close>

lemma fetch_phase_events:
  assumes "fetch_phase E time p data = (evs, res)"
  shows "sink_events io evs = []" and "writes io evs = []"
    and "written_tensors io evs = []" and "Exhausted \<notin> set evs" and "evs \<noteq> []"
    and "raised evs = (case res of Inl e \<Rightarrow> [e] | Inr v \<Rightarrow> [])"
    and "\<And>e. res = Inl e \<Longrightarrow> last evs = Raised e"
  using assms
  by (auto simp: fetch_phase_def Let_def split: sum.splits prod.splits)

lemma perturb_phase_events:
  assumes "perturb_phase E p pm x c = (evs, res)"
  shows "sink_events io evs = []" and "writes io evs = []"
    and "written_tensors io evs = []" and "Exhausted \<notin> set evs" and "evs \<noteq> []"
    and "raised evs = (case res of Inl e \<Rightarrow> [e] | Inr v \<Rightarrow> [])"
    and "\<And>e. res = Inl e \<Longrightarrow> last evs = Raised e"
  using assms
  by (auto simp: perturb_phase_def split: sum.splits prod.splits)

lemma prepare_cases:
  assumes "prepare E time nsteps nensemble p pm data io h = (evs, h1, res)"
  obtains
    (fetch_fails) e where "fetch_phase E time p data = (evs, Inl e)" "h1 = h" "res = Inl e"
  | (expand_fails) evs1 p' x c e where "fetch_phase E time p data = (evs1, Inr (p', x, c))"
      "expand_ensemble nensemble x c = Inl e"
      "evs = evs1 @ [Raised e]" "h1 = h" "res = Inl e"
  | (schema_fails) evs1 p' x c x' c' e where "fetch_phase E time p data = (evs1, Inr (p', x, c))"
      "expand_ensemble nensemble x c = Inr (x', c')"
      "output_schema (fmul E) p' nsteps c' = Inl e"
      "evs = evs1 @ [Raised e]" "h1 = h" "res = Inl e"
  | (add_array_fails) evs1 p' x c x' c' total names e where
      "fetch_phase E time p data = (evs1, Inr (p', x, c))"
      "expand_ensemble nensemble x c = Inr (x', c')"
      "output_schema (fmul E) p' nsteps c' = Inr (total, names)"
      "io_add_array E (h io) total names = Inl e"
      "evs = evs1 @ [AddArray io total names, Raised e]" "h1 = h" "res = Inl e"
  | (perturb_fails) evs1 p' x c x' c' total names s evs2 e where
      "fetch_phase E time p data = (evs1, Inr (p', x, c))"
      "expand_ensemble nensemble x c = Inr (x', c')"
      "output_schema (fmul E) p' nsteps c' = Inr (total, names)"
      "io_add_array E (h io) total names = Inr s"
      "perturb_phase E p' pm x' c' = (evs2, Inl e)"
      "evs = evs1 @ [AddArray io total names] @ evs2" "h1 = h(io := s)" "res = Inl e"
  | (iterator_fails) evs1 p' x c x' c' total names s evs2 x'' c'' e where
      "fetch_phase E time p data = (evs1, Inr (p', x, c))"
      "expand_ensemble nensemble x c = Inr (x', c')"
      "output_schema (fmul E) p' nsteps c' = Inr (total, names)"
      "io_add_array E (h io) total names = Inr s"
      "perturb_phase E p' pm x' c' = (evs2, Inr (x'', c''))"
      "create_iterator p' x'' c'' = Inl e"
      "evs = evs1 @ [AddArray io total names] @ evs2 @ [Call CreateIterator, Raised e]"
      "h1 = h(io := s)" "res = Inl e"
  | (ready) evs1 p' x c x' c' total names s evs2 x'' c'' model where
      "fetch_phase E time p data = (evs1, Inr (p', x, c))"
      "expand_ensemble nensemble x c = Inr (x', c')"
      "output_schema (fmul E) p' nsteps c' = Inr (total, names)"
      "io_add_array E (h io) total names = Inr s"
      "perturb_phase E p' pm x' c' = (evs2, Inr (x'', c''))"
      "create_iterator p' x'' c'' = Inr model"
      "evs = evs1 @ [AddArray io total names] @ evs2 @ [Call CreateIterator]"
      "h1 = h(io := s)" "res = Inr model"
proof -
  obtain evs1 r1 where f: "fetch_phase E time p data = (evs1, r1)"
    by (cases "fetch_phase E time p data")
  show thesis
  proof (cases r1)
    case (Inl e)
    with assms f have "evs = evs1" "h1 = h" "res = Inl e"
      by (simp_all add: prepare_def)
    with f Inl show thesis by (simp add: fetch_fails)
  next
    case (Inr t)
    obtain p' x c where t: "t = (p', x, c)" by (cases t)
    from f Inr t have f': "fetch_phase E time p data = (evs1, Inr (p', x, c))" by simp
    show thesis
    proof (cases "expand_ensemble nensemble x c")
      case (Inl e)
      with assms f' have "evs = evs1 @ [Raised e]" "h1 = h" "res = Inl e"
        by (simp_all add: prepare_def)
      with f' Inl show thesis by (rule expand_fails)
    next
      case (Inr u)
      obtain x' c' where u: "u = (x', c')" by (cases u)
      from Inr u have ex: "expand_ensemble nensemble x c = Inr (x', c')" by simp
      show thesis
      proof (cases "output_schema (fmul E) p' nsteps c'")
        case (Inl e)
        with assms f' ex have "evs = evs1 @ [Raised e]" "h1 = h" "res = Inl e"
          by (simp_all add: prepare_def)
        with f' ex Inl show thesis by (rule schema_fails)
      next
        case (Inr v)
        obtain total names where v: "v = (total, names)" by (cases v)
        from Inr v have sc: "output_schema (fmul E) p' nsteps c' = Inr (total, names)" by simp
        show thesis
        proof (cases "io_add_array E (h io) total names")
          case (Inl e)
          with assms f' ex sc have "evs = evs1 @ [AddArray io total names, Raised e]"
            "h1 = h" "res = Inl e"
            by (simp_all add: prepare_def)
          with f' ex sc Inl show thesis by (rule add_array_fails)
        next
          case (Inr s)
          note add = Inr
          obtain evs2 r2 where pp: "perturb_phase E p' pm x' c' = (evs2, r2)"
            by (cases "perturb_phase E p' pm x' c'")
          show thesis
          proof (cases r2)
            case (Inl e)
            with pp have pe: "perturb_phase E p' pm x' c' = (evs2, Inl e)" by simp
            with assms f' ex sc add have "evs = evs1 @ [AddArray io total names] @ evs2"
              "h1 = h(io := s)" "res = Inl e"
              by (simp_all add: prepare_def)
            with f' ex sc add pe show thesis by (rule perturb_fails)
          next
            case (Inr w)
            obtain x'' c'' where w: "w = (x'', c'')" by (cases w)
            from pp Inr w have pe: "perturb_phase E p' pm x' c' = (evs2, Inr (x'', c''))"
              by simp
            show thesis
            proof (cases "create_iterator p' x'' c''")
              case (Inl e)
              with assms f' ex sc add pe have
                "evs = evs1 @ [AddArray io total names] @ evs2 @ [Call CreateIterator, Raised e]"
                "h1 = h(io := s)" "res = Inl e"
                by (simp_all add: prepare_def)
              with f' ex sc add pe Inl show thesis by (rule iterator_fails)
            next
              case (Inr model)
              with assms f' ex sc add pe have
                "evs = evs1 @ [AddArray io total names] @ evs2 @ [Call CreateIterator]"
                "h1 = h(io := s)" "res = Inr model"
                by (simp_all add: prepare_def)
              with f' ex sc add pe Inr show thesis by (rule ready)
            qed
          qed
        qed
      qed
    qed
  qed
qed

lemma prepare_events:
  assumes "prepare E time nsteps nensemble p pm data io h = (evs, h1, res)"
  shows "writes r evs = []" and "written_tensors r evs = []"
    and "Exhausted \<notin> set evs" and "evs \<noteq> []"
    and "raised evs = (case res of Inl e \<Rightarrow> [e] | Inr m \<Rightarrow> [])"
    and "\<And>e. res = Inl e \<Longrightarrow> last evs = Raised e"
  using assms
  by (cases rule: prepare_cases;
      simp add: writes_append written_tensors_append raised_append
        fetch_phase_events perturb_phase_events)+

lemma loop_nonempty:
  assumes "loop ex wr nsteps io model step h = Some (evs, h', r)"
  shows "evs \<noteq> []"
  using assms by (cases rule: loop_cases) simp_all

lemma run_ensemble_cases:
  assumes "run_ensemble E time nsteps nensemble p pm data io h = Some (evs, h', res)"
  obtains
    (aborted) e where "prepare E time nsteps nensemble p pm data io h = (evs, h', Inl e)"
      "res = Inl e"
  | (looped) evs0 h1 model evs1 r where
      "prepare E time nsteps nensemble p pm data io h = (evs0, h1, Inr model)"
      "loop (extract_coords E) (io_write E) nsteps io model 0 h1 = Some (evs1, h', r)"
      "evs = evs0 @ evs1" "res = (case r of Inl e \<Rightarrow> Inl e | Inr u \<Rightarrow> Inr io)"
proof -
  obtain evs0 h1 r0 where p: "prepare E time nsteps nensemble p pm data io h = (evs0, h1, r0)"
    by (cases "prepare E time nsteps nensemble p pm data io h")
  show thesis
  proof (cases r0)
    case (Inl e)
    with assms p have "evs = evs0" "h' = h1" "res = Inl e"
      by (simp_all add: run_ensemble_def)
    with p Inl show thesis by (simp add: aborted)
  next
    case (Inr model)
    with p have p': "prepare E time nsteps nensemble p pm data io h = (evs0, h1, Inr model)"
      by simp
    from assms p' obtain evs1 r
      where l: "loop (extract_coords E) (io_write E) nsteps io model 0 h1 = Some (evs1, h', r)"
        and "evs = evs0 @ evs1" "res = (case r of Inl e \<Rightarrow> Inl e | Inr u \<Rightarrow> Inr io)"
      by (auto simp: run_ensemble_def split: option.splits sum.splits)
    with p' show thesis by (rule looped)
  qed
qed

lemma raised_mem: "Raised e \<in> set evs \<longleftrightarrow> e \<in> set (raised evs)"
  by (induction evs rule: raised.induct) auto

lemma run_ensemble_raised:
  assumes "run_ensemble E time nsteps nensemble p pm data io h = Some (evs, h', res)"
  shows "raised evs = (case res of Inl e \<Rightarrow> [e] | Inr r \<Rightarrow> []) \<and>
         (\<forall>e. res = Inl e \<longrightarrow> last evs = Raised e)"
  using assms
proof (cases rule: run_ensemble_cases)
  case (aborted e)
  then show ?thesis
    by (simp add: prepare_events(5) [OF aborted(1)] prepare_events(6) [OF aborted(1)])
next
  case (looped evs0 h1 model evs1 r)
  with loop_raised [OF looped(2)] loop_nonempty [OF looped(2)] show ?thesis
    by (simp add: raised_append prepare_events(5) [OF looped(1)] split: sum.splits)
qed

lemma prepare_sink:
  assumes "prepare E time nsteps nensemble p pm data io h = (evs, h1, res)"
  shows "(sink_events io evs = [] \<and> (\<exists>e. res = Inl e)) \<or>
         (\<exists>total names. sink_events io evs = [AddArray io total names])"
  using assms
  by (cases rule: prepare_cases;
      simp add: sink_events_append fetch_phase_events perturb_phase_events)


lemma demo_unavailable_fails:
  "map_option (\<lambda>(evs, r). (sink_events 0 evs, r)) (outcome demo_unavailable)
     = Some ([], Inl (Failure ''variable unavailable''))"
  by code_simp

text \<open>
  Claim C2, as stated for every run: a run that fails before \<^verbatim>\<open>io.add_array\<close>
  is reached never declares the schema. Here the data source cannot provide the
  variables: the run fails and the sink receives no call at all.
\<close>

theorem schema_not_declared_when_fetch_fails:
  "\<exists>evs h' e. demo_unavailable = Some (evs, h', Inl e) \<and> sink_events 0 evs = []"
proof -
  from demo_unavailable_fails obtain evs r
    where o: "outcome demo_unavailable = Some (evs, r)"
      and s: "sink_events 0 evs = []" and r: "r = Inl (Failure ''variable unavailable'')"
    by (cases "outcome demo_unavailable") auto
  from o obtain h' where "demo_unavailable = Some (evs, h', r)"
    by (auto dest: outcome_SomeD)
  with s r show ?thesis by blast
qed

text \<open>
  Claim C2, amended: in every run that returns, the schema is declared at most once;
  when it is declared, the declaration is the first call the sink receives and every
  later call to the sink is a write, so that the schema is fixed before the first write
  and never altered. The sink receives no call only in a run that fails; a run that
  succeeds declares the schema exactly once.
\<close>

theorem run_ensemble_declares_schema_once:
  assumes "run_ensemble E time nsteps nensemble prognostic perturbation_method data io h
             = Some (evs, h', res)"
  shows "(sink_events io evs = [] \<and> (\<exists>e. res = Inl e)) \<or>
         (\<exists>total names ws. sink_events io evs = AddArray io total names # ws \<and>
            list_all is_write ws)"
  using assms
proof (cases rule: run_ensemble_cases)
  case (aborted e)
  from prepare_sink [OF aborted(1)] aborted(2) show ?thesis by auto
next
  case (looped evs0 h1 model evs1 r)
  from prepare_sink [OF looped(1)] obtain total names
    where "sink_events io evs0 = [AddArray io total names]"
    by auto
  with looped(3) loop_sink [OF looped(2)] show ?thesis
    by (simp add: sink_events_append)
qed

theorem run_ensemble_declares_schema_once_witness:
  "\<exists>evs h' total names ws. demo_run 1 = Some (evs, h', Inr 0) \<and>
     sink_events 0 evs = AddArray 0 total names # ws \<and> list_all is_write ws"
proof -
  from demo_run_1_returns obtain evs where "outcome (demo_run 1) = Some (evs, Inr 0)"
    by (cases "outcome (demo_run 1)") auto
  then obtain h' where run: "demo_run 1 = Some (evs, h', Inr 0)"
    by (auto dest: outcome_SomeD)
  from run_ensemble_declares_schema_once [OF run [unfolded demo_run_def]]
  obtain total names ws
    where "sink_events 0 evs = AddArray 0 total names # ws" "list_all is_write ws"
    by auto
  with run show ?thesis by blast
qed



lemma demo_fetch:
  "fetch_phase demo_env [TimeStr ''2024-01-01''] demo_prognostic () =
     ([Call ToDevice, Call ToTimeArray, Call FetchData],
      Inr (demo_prognostic, demo_x,
           [(''time'', [Datetime 19723]), (''lead_time'', [Timedelta 0]),
            (''variable'', [Name ''u'', Name ''v''])]))"
  by (simp add: fetch_phase_def demo_env_def demo_prognostic_def to_time_array_spec_def
      demo_parse_def getitem_def)

subsection \<open>The loop against the passes read off the collaborators\<close>

lemma bind_Some_id:
  "Option.bind m (\<lambda>(evs, h, r). Some ([] @ evs, h, r)) = m"
  by (cases m) auto

lemma bind_Some_append:
  "Option.bind (Option.bind m (\<lambda>(evs, h, r). Some (ys @ evs, h, r)))
     (\<lambda>(evs, h, r). Some (xs @ evs, h, r))
   = Option.bind m (\<lambda>(evs, h, r). Some ((xs @ ys) @ evs, h, r))"
  by (cases m) auto

lemma iterations_Suc:
  assumes "iterations ex wr io model step (Suc k) h = Some (evs, h')"
  obtains y cy a s evs1 where "model step = Yield y cy" "ex y cy = Inr a"
    "wr (h io) a = Inr s" "iterations ex wr io model (Suc step) k (h(io := s)) = Some (evs1, h')"
    "evs = [Call NextItem, Call ExtractCoords, Write io a] @ evs1"
  using assms
  by (auto split: item.splits sum.splits option.splits prod.splits)

lemma loop_iterations:
  assumes "iterations ex wr io model step k h = Some (evs, hk)"
    and "\<forall>j<k. int (step + j) \<noteq> nsteps"
  shows "loop ex wr nsteps io model step h =
           Option.bind (loop ex wr nsteps io model (step + k) hk)
             (\<lambda>(evs', h', r). Some (evs @ evs', h', r))"
  using assms
proof (induction k arbitrary: step h evs)
  case 0
  then show ?case by (simp add: bind_Some_id)
next
  case (Suc k)
  from Suc.prems(1) obtain y cy a s evs1
    where step: "model step = Yield y cy" "ex y cy = Inr a" "wr (h io) a = Inr s"
      and rest: "iterations ex wr io model (Suc step) k (h(io := s)) = Some (evs1, hk)"
      and evs: "evs = [Call NextItem, Call ExtractCoords, Write io a] @ evs1"
    by (rule iterations_Suc)
  from Suc.prems(2) [rule_format, of 0] have here: "int step \<noteq> nsteps" by simp
  have later: "\<forall>j<k. int (Suc step + j) \<noteq> nsteps"
  proof (intro allI impI)
    fix j assume "j < k"
    with Suc.prems(2) [rule_format, of "Suc j"] show "int (Suc step + j) \<noteq> nsteps" by simp
  qed
  have 1: "loop ex wr nsteps io model step h =
          Option.bind (loop ex wr nsteps io model (Suc step) (h(io := s)))
            (\<lambda>(evs', h', r). Some ([Call NextItem, Call ExtractCoords, Write io a] @ evs', h', r))"
    using step here by (subst loop.simps) simp
  have 2: "loop ex wr nsteps io model (Suc step) (h(io := s)) =
          Option.bind (loop ex wr nsteps io model (Suc step + k) hk)
            (\<lambda>(evs', h', r). Some (evs1 @ evs', h', r))"
    using rest later by (rule Suc.IH)
  show ?case
    by (simp only: 1 2 bind_Some_append evs add_Suc add_Suc_right)
qed

lemma loop_ends:
  assumes "iterations ex wr io model 0 k h = Some (evs, hk)"
    and "\<forall>j<k. int j \<noteq> nsteps"
  shows "model k = Raise e \<Longrightarrow>
           loop ex wr nsteps io model 0 h = Some (evs @ [Call NextItem, Raised e], hk, Inl e)"
    and "model k = StopIteration \<Longrightarrow>
           loop ex wr nsteps io model 0 h = Some (evs @ [Call NextItem, Exhausted], hk, Inr ())"
    and "model k = Yield y cy \<Longrightarrow> ex y cy = Inl e \<Longrightarrow>
           loop ex wr nsteps io model 0 h
             = Some (evs @ [Call NextItem, Call ExtractCoords, Raised e], hk, Inl e)"
    and "model k = Yield y cy \<Longrightarrow> ex y cy = Inr a \<Longrightarrow> wr (hk io) a = Inl e \<Longrightarrow>
           loop ex wr nsteps io model 0 h
             = Some (evs @ [Call NextItem, Call ExtractCoords, Write io a, Raised e], hk, Inl e)"
    and "model k = Yield y cy \<Longrightarrow> ex y cy = Inr a \<Longrightarrow> wr (hk io) a = Inr s \<Longrightarrow>
           int k = nsteps \<Longrightarrow>
           loop ex wr nsteps io model 0 h
             = Some (evs @ [Call NextItem, Call ExtractCoords, Write io a], hk(io := s), Inr ())"
proof -
  from assms(2) have "\<forall>j<k. int (0 + j) \<noteq> nsteps" by simp
  from loop_iterations [OF assms(1) this]
  have l: "loop ex wr nsteps io model 0 h =
             Option.bind (loop ex wr nsteps io model k hk)
               (\<lambda>(evs', h', r). Some (evs @ evs', h', r))"
    by simp
  show "model k = Raise e \<Longrightarrow>
           loop ex wr nsteps io model 0 h = Some (evs @ [Call NextItem, Raised e], hk, Inl e)"
    unfolding l by (subst loop.simps) simp
  show "model k = StopIteration \<Longrightarrow>
           loop ex wr nsteps io model 0 h = Some (evs @ [Call NextItem, Exhausted], hk, Inr ())"
    unfolding l by (subst loop.simps) simp
  show "model k = Yield y cy \<Longrightarrow> ex y cy = Inl e \<Longrightarrow>
           loop ex wr nsteps io model 0 h
             = Some (evs @ [Call NextItem, Call ExtractCoords, Raised e], hk, Inl e)"
    unfolding l by (subst loop.simps) simp
  show "model k = Yield y cy \<Longrightarrow> ex y cy = Inr a \<Longrightarrow> wr (hk io) a = Inl e \<Longrightarrow>
           loop ex wr nsteps io model 0 h
             = Some (evs @ [Call NextItem, Call ExtractCoords, Write io a, Raised e], hk, Inl e)"
    unfolding l by (subst loop.simps) simp
  show "model k = Yield y cy \<Longrightarrow> ex y cy = Inr a \<Longrightarrow> wr (hk io) a = Inr s \<Longrightarrow>
           int k = nsteps \<Longrightarrow>
           loop ex wr nsteps io model 0 h
             = Some (evs @ [Call NextItem, Call ExtractCoords, Write io a], hk(io := s), Inr ())"
    unfolding l by (subst loop.simps) simp
qed





subsection \<open>Failures\<close>

text \<open>
  Claim C8: every call that \<^verbatim>\<open>run_ensemble\<close> makes is followed through in the
  order of the source. Whichever call is the first to fail (a collaborator, or one of
  the tensor, array and dictionary operations of lines 121 to 146), its exception is the
  result of the run; the calls made are exactly those before it, so that nothing is
  retried and nothing runs after it; and the store of sink states is the one the calls
  before it left. In the loop this holds for a failure at any position \<open>k\<close> of the
  prognostic sequence, after \<open>k\<close> passes that succeeded.
\<close>

theorem run_ensemble_propagates:
  assumes "run = run_ensemble E time nsteps nensemble prognostic perturbation_method data io h"
    and "dev = (if cuda_available E then Cuda else Cpu)"
    and "pre = [Call ToDevice, Call ToTimeArray, Call FetchData]"
  shows
   "(\<forall>e. to_device E dev prognostic = Inl e \<longrightarrow>
       run = Some ([Call ToDevice, Raised e], h, Inl e)) \<and>
    (\<forall>p'. to_device E dev prognostic = Inr p' \<longrightarrow>
    (\<forall>e. to_time_array E time = Inl e \<longrightarrow>
       run = Some ([Call ToDevice, Call ToTimeArray, Raised e], h, Inl e)) \<and>
    (\<forall>t. to_time_array E time = Inr t \<longrightarrow>
    (\<forall>e. getitem (input_coords p') ''lead_time'' = Inl e \<longrightarrow>
       run = Some ([Call ToDevice, Call ToTimeArray, Raised e], h, Inl e)) \<and>
    (\<forall>lt. getitem (input_coords p') ''lead_time'' = Inr lt \<longrightarrow>
    (\<forall>e. getitem (input_coords p') ''variable'' = Inl e \<longrightarrow>
       run = Some ([Call ToDevice, Call ToTimeArray, Raised e], h, Inl e)) \<and>
    (\<forall>vs. getitem (input_coords p') ''variable'' = Inr vs \<longrightarrow>
    (\<forall>e. fetch_data E data t lt vs dev = Inl e \<longrightarrow>
       run = Some (pre @ [Raised e], h, Inl e)) \<and>
    (\<forall>x c. fetch_data E data t lt vs dev = Inr (x, c) \<longrightarrow>
    (\<forall>e. expand_ensemble nensemble x c = Inl e \<longrightarrow>
       run = Some (pre @ [Raised e], h, Inl e)) \<and>
    (\<forall>x1 c1. expand_ensemble nensemble x c = Inr (x1, c1) \<longrightarrow>
    (\<forall>e. output_schema (fmul E) p' nsteps c1 = Inl e \<longrightarrow>
       run = Some (pre @ [Raised e], h, Inl e)) \<and>
    (\<forall>total names. output_schema (fmul E) p' nsteps c1 = Inr (total, names) \<longrightarrow>
    (\<forall>e. io_add_array E (h io) total names = Inl e \<longrightarrow>
       run = Some (pre @ [AddArray io total names, Raised e], h, Inl e)) \<and>
    (\<forall>s. io_add_array E (h io) total names = Inr s \<longrightarrow>
    (\<forall>e. map_coords E x1 c1 (input_coords p') = Inl e \<longrightarrow>
       run = Some (pre @ [AddArray io total names, Call MapCoords, Raised e],
                   h(io := s), Inl e)) \<and>
    (\<forall>x2 c2. map_coords E x1 c1 (input_coords p') = Inr (x2, c2) \<longrightarrow>
    (\<forall>e. perturbation_method x2 c2 = Inl e \<longrightarrow>
       run = Some (pre @ [AddArray io total names, Call MapCoords, Call PerturbationMethod,
                          Raised e], h(io := s), Inl e)) \<and>
    (\<forall>noise. perturbation_method x2 c2 = Inr noise \<longrightarrow>
    (\<forall>e. iadd (fadd E) x2 noise = Inl e \<longrightarrow>
       run = Some (pre @ [AddArray io total names, Call MapCoords, Call PerturbationMethod,
                          Raised e], h(io := s), Inl e)) \<and>
    (\<forall>x3. iadd (fadd E) x2 noise = Inr x3 \<longrightarrow>
    (\<forall>e. create_iterator p' x3 c2 = Inl e \<longrightarrow>
       run = Some (pre @ [AddArray io total names, Call MapCoords, Call PerturbationMethod,
                          Call CreateIterator, Raised e], h(io := s), Inl e)) \<and>
    (\<forall>model k evs hk. create_iterator p' x3 c2 = Inr model \<longrightarrow>
       iterations (extract_coords E) (io_write E) io model 0 k (h(io := s)) = Some (evs, hk) \<longrightarrow>
       (\<forall>j<k. int j \<noteq> nsteps) \<longrightarrow>
    (\<forall>e. model k = Raise e \<longrightarrow>
       run = Some (pre @ [AddArray io total names, Call MapCoords, Call PerturbationMethod,
                          Call CreateIterator] @ evs @ [Call NextItem, Raised e], hk, Inl e)) \<and>
    (\<forall>y cy. model k = Yield y cy \<longrightarrow>
    (\<forall>e. extract_coords E y cy = Inl e \<longrightarrow>
       run = Some (pre @ [AddArray io total names, Call MapCoords, Call PerturbationMethod,
                          Call CreateIterator] @ evs @
                          [Call NextItem, Call ExtractCoords, Raised e], hk, Inl e)) \<and>
    (\<forall>a e. extract_coords E y cy = Inr a \<longrightarrow> io_write E (hk io) a = Inl e \<longrightarrow>
       run = Some (pre @ [AddArray io total names, Call MapCoords, Call PerturbationMethod,
                          Call CreateIterator] @ evs @
                          [Call NextItem, Call ExtractCoords, Write io a, Raised e],
                   hk, Inl e)))))))))))))))"
proof (intro conjI allI impI, goal_cases)
  case 1
  with assms show ?case by (simp add: run_ensemble_def prepare_def fetch_phase_def)
next
  case 2
  with assms show ?case by (simp add: run_ensemble_def prepare_def fetch_phase_def)
next
  case 3
  with assms show ?case by (simp add: run_ensemble_def prepare_def fetch_phase_def)
next
  case 4
  with assms show ?case by (simp add: run_ensemble_def prepare_def fetch_phase_def)
next
  case 5
  with assms show ?case by (simp add: run_ensemble_def prepare_def fetch_phase_def)
next
  case 6
  with assms show ?case by (simp add: run_ensemble_def prepare_def fetch_phase_def)
next
  case 7
  with assms show ?case by (simp add: run_ensemble_def prepare_def fetch_phase_def)
next
  case 8
  with assms show ?case by (simp add: run_ensemble_def prepare_def fetch_phase_def)
next
  case 9
  with assms show ?case
    by (simp add: run_ensemble_def prepare_def fetch_phase_def perturb_phase_def)
next
  case 10
  with assms show ?case
    by (simp add: run_ensemble_def prepare_def fetch_phase_def perturb_phase_def)
next
  case 11
  with assms show ?case
    by (simp add: run_ensemble_def prepare_def fetch_phase_def perturb_phase_def)
next
  case 12
  with assms show ?case
    by (simp add: run_ensemble_def prepare_def fetch_phase_def perturb_phase_def)
next
  case (13 p' t lt vs x c x1 c1 total names s x2 c2 noise x3 model k evs hk e)
  then have "loop (extract_coords E) (io_write E) nsteps io model 0 (h(io := s))
               = Some (evs @ [Call NextItem, Raised e], hk, Inl e)"
    by (intro loop_ends(1))
  with assms 13 show ?case
    by (simp add: run_ensemble_def prepare_def fetch_phase_def perturb_phase_def)
next
  case (14 p' t lt vs x c x1 c1 total names s x2 c2 noise x3 model k evs hk y cy e)
  then have "loop (extract_coords E) (io_write E) nsteps io model 0 (h(io := s))
               = Some (evs @ [Call NextItem, Call ExtractCoords, Raised e], hk, Inl e)"
    by (intro loop_ends(3))
  with assms 14 show ?case
    by (simp add: run_ensemble_def prepare_def fetch_phase_def perturb_phase_def)
next
  case (15 p' t lt vs x c x1 c1 total names s x2 c2 noise x3 model k evs hk y cy a e)
  then have "loop (extract_coords E) (io_write E) nsteps io model 0 (h(io := s))
               = Some (evs @ [Call NextItem, Call ExtractCoords, Write io a, Raised e], hk, Inl e)"
    by (intro loop_ends(4))
  with assms 15 show ?case
    by (simp add: run_ensemble_def prepare_def fetch_phase_def perturb_phase_def)
qed

theorem run_ensemble_propagates_witness:
  "demo_unavailable =
     Some ([Call ToDevice, Call ToTimeArray, Call FetchData,
            Raised (Failure ''variable unavailable'')],
           \<lambda>r. 0, Inl (Failure ''variable unavailable''))"
proof -
  define E where
    "E = demo_env\<lparr>fetch_data := \<lambda>src t lt v dev. Inl (Failure ''variable unavailable'')\<rparr>"
  define dev where "dev = (if cuda_available E then Cuda else Cpu)"
  have run: "demo_unavailable = run_ensemble E [TimeStr ''2024-01-01''] 1 2 demo_prognostic
               demo_perturbation () 0 (\<lambda>r. 0)"
    by (simp add: demo_unavailable_def E_def)
  have f1: "to_device E dev demo_prognostic = Inr demo_prognostic"
    by (simp add: E_def demo_env_def)
  have f2: "to_time_array E [TimeStr ''2024-01-01''] = Inr [Datetime 19723]"
    by (simp add: E_def demo_env_def to_time_array_spec_def demo_parse_def)
  have f3: "getitem (input_coords demo_prognostic) ''lead_time'' = Inr [Timedelta 0]"
    by (simp add: demo_prognostic_def getitem_def)
  have f4: "getitem (input_coords demo_prognostic) ''variable'' = Inr [Name ''u'', Name ''v'']"
    by (simp add: demo_prognostic_def getitem_def)
  have f5: "fetch_data E () [Datetime 19723] [Timedelta 0] [Name ''u'', Name ''v''] dev
              = Inl (Failure ''variable unavailable'')"
    by (simp add: E_def)
  note all = run_ensemble_propagates [OF run dev_def refl]
  from all [THEN conjunct2, rule_format, OF f1, THEN conjunct2, rule_format, OF f2,
      THEN conjunct2, rule_format, OF f3, THEN conjunct2, rule_format, OF f4,
      THEN conjunct1, rule_format, OF f5]
  show ?thesis by simp
qed

subsection \<open>The steps before the loop that cannot fail on well-formed input\<close>




lemma map2_ones: "map2 (*) (replicate (length xs) (Suc 0)) xs = xs"
  by (induction xs) simp_all

lemma expand_ensemble_ok:
  assumes "0 \<le> n" and "n < 2 ^ 63"
  shows "expand_ensemble n x c =
           Inr (\<lparr>shape = nat n # shape x,
                 elems = tile (nat n # replicate (length (shape x)) 1) (1 # shape x) (elems x)\<rparr>,
                dict_or [(''ensemble'', arange n)] c)"
  using assms
  by (simp add: expand_ensemble_def repeat_def ndim_def unsqueeze0_def fits64_def
      list_ex_iff map2_ones)









subsection \<open>The writes\<close>






subsection \<open>Termination\<close>






subsection \<open>The time list\<close>

lemma mapE_fails:
  assumes "x \<in> set xs" and "f x = Inl e" and "\<And>y e'. f y = Inl e' \<Longrightarrow> e' = e"
  shows "mapE f xs = Inl e"
  using assms(1)
proof (induction xs)
  case (Cons y ys)
  show ?case
  proof (cases "f y")
    case (Inl e')
    with assms(3) show ?thesis by simp
  next
    case (Inr v)
    with Cons assms(2) have "mapE f ys = Inl e" by auto
    with Inr show ?thesis by simp
  qed
qed simp

lemma to_time_array_spec_fails:
  assumes "time = [] \<or> (\<exists>s. TimeStr s \<in> set time \<and> parse s = None)"
  shows "to_time_array_spec parse time = Inl ValueError"
proof (cases "time = []")
  case True
  then show ?thesis by (simp add: to_time_array_spec_def)
next
  case False
  with assms obtain s where s: "TimeStr s \<in> set time" "parse s = None" by blast
  have "mapE (\<lambda>t. case t of
                 TimeStr s \<Rightarrow> (case parse s of None \<Rightarrow> Inl ValueError | Some n \<Rightarrow> Inr (Datetime n))
               | TimeDatetime n \<Rightarrow> Inr (Datetime n)
               | TimeNumpy n \<Rightarrow> Inr (Datetime n)) time = Inl ValueError"
    using s(1)
  proof (rule mapE_fails)
    from s(2) show "(case TimeStr s of
                 TimeStr s \<Rightarrow> (case parse s of None \<Rightarrow> Inl ValueError | Some n \<Rightarrow> Inr (Datetime n))
               | TimeDatetime n \<Rightarrow> Inr (Datetime n)
               | TimeNumpy n \<Rightarrow> Inr (Datetime n)) = Inl ValueError"
      by simp
  qed (auto split: time_in.splits option.splits)
  with False show ?thesis by (simp add: to_time_array_spec_def)
qed

text \<open>
  Claim C7: with \<^verbatim>\<open>to_time_array\<close> as the spec describes it, a run whose time
  list is empty or holds a string that cannot be parsed fails, and it fails before the
  data source is asked for anything and before the sink receives any call. The calls
  made are \<^verbatim>\<open>prognostic.to\<close> and, when that succeeds, \<^verbatim>\<open>to_time_array\<close>,
  whose exception is the result; the store of sink states is unchanged.
\<close>

theorem run_ensemble_bad_time:
  assumes "to_time_array E = to_time_array_spec parse"
    and "time = [] \<or> (\<exists>s. TimeStr s \<in> set time \<and> parse s = None)"
    and "dev = (if cuda_available E then Cuda else Cpu)"
    and "run = run_ensemble E time nsteps nensemble prognostic perturbation_method data io h"
  shows "(\<forall>e. to_device E dev prognostic = Inl e \<longrightarrow>
            run = Some ([Call ToDevice, Raised e], h, Inl e)) \<and>
         (\<forall>p'. to_device E dev prognostic = Inr p' \<longrightarrow>
            run = Some ([Call ToDevice, Call ToTimeArray, Raised ValueError], h,
                        Inl ValueError)) \<and>
         (\<exists>evs e. run = Some (evs, h, Inl e) \<and> Call FetchData \<notin> set evs \<and>
            sink_events io evs = [] \<and> writes io evs = [])"
proof -
  from assms(1,2) have t: "to_time_array E time = Inl ValueError"
    by (simp add: to_time_array_spec_fails)
  have 1: "run = Some ([Call ToDevice, Raised e], h, Inl e)"
    if "to_device E dev prognostic = Inl e" for e
    using that assms(3,4) by (simp add: run_ensemble_def prepare_def fetch_phase_def)
  have 2: "run = Some ([Call ToDevice, Call ToTimeArray, Raised ValueError], h, Inl ValueError)"
    if "to_device E dev prognostic = Inr p'" for p'
    using that t assms(3,4) by (simp add: run_ensemble_def prepare_def fetch_phase_def)
  have "\<exists>evs e. run = Some (evs, h, Inl e) \<and> Call FetchData \<notin> set evs \<and>
          sink_events io evs = [] \<and> writes io evs = []"
  proof (cases "to_device E dev prognostic")
    case (Inl e)
    from 1 [OF this] show ?thesis by simp
  next
    case (Inr p')
    from 2 [OF this] show ?thesis by simp
  qed
  with 1 2 show ?thesis by blast
qed

theorem run_ensemble_bad_time_witness:
  "run_ensemble demo_env [] 1 2 demo_prognostic demo_perturbation () 0 (\<lambda>r. 0)
     = Some ([Call ToDevice, Call ToTimeArray, Raised ValueError], \<lambda>r. 0, Inl ValueError) \<and>
   run_ensemble demo_env [TimeStr ''tomorrow''] 1 2 demo_prognostic demo_perturbation () 0
     (\<lambda>r. 0)
     = Some ([Call ToDevice, Call ToTimeArray, Raised ValueError], \<lambda>r. 0, Inl ValueError)"
proof -
  have spec: "to_time_array demo_env = to_time_array_spec demo_parse"
    by (simp add: demo_env_def)
  have dev: "Cpu = (if cuda_available demo_env then Cuda else Cpu)"
    by (simp add: demo_env_def)
  have p: "to_device demo_env Cpu demo_prognostic = Inr demo_prognostic"
    by (simp add: demo_env_def)
  have empty: "[] = [] \<or> (\<exists>s. TimeStr s \<in> set [] \<and> demo_parse s = None)"
    by simp
  have unparsable:
    "[TimeStr ''tomorrow''] = [] \<or>
     (\<exists>s. TimeStr s \<in> set [TimeStr ''tomorrow''] \<and> demo_parse s = None)"
    by (simp add: demo_parse_def)
  from run_ensemble_bad_time [OF spec empty dev refl, THEN conjunct2, THEN conjunct1,
      rule_format, OF p]
    run_ensemble_bad_time [OF spec unparsable dev refl, THEN conjunct2, THEN conjunct1,
      rule_format, OF p]
  show ?thesis by simp
qed

subsection \<open>The broadcast\<close>

lemma chunks_lengths:
  assumes "ch \<in> set (chunks s p d)" and "length d = s * p"
  shows "length ch = p"
  using assms by (induction s arbitrary: d) auto

lemma concat_chunks:
  assumes "length d = s * p"
  shows "concat (chunks s p d) = d"
  using assms by (induction s arbitrary: d) simp_all

lemma tile_ones:
  assumes "length d = prod_list ss"
  shows "tile (replicate (length ss) (Suc 0)) ss d = d"
  using assms
proof (induction ss arbitrary: d)
  case (Cons s ss)
  from Cons.prems have len: "length d = s * prod_list ss" by simp
  have "map (tile (replicate (length ss) (Suc 0)) ss) (chunks s (prod_list ss) d)
          = chunks s (prod_list ss) d"
  proof (rule map_idI)
    fix ch assume "ch \<in> set (chunks s (prod_list ss) d)"
    from chunks_lengths [OF this len] show "tile (replicate (length ss) (Suc 0)) ss ch = ch"
      by (rule Cons.IH)
  qed
  then show ?case by (simp add: concat_chunks [OF len])
qed simp

lemma broadcast_elems:
  assumes "well_formed x"
  shows "tile (n # replicate (length (shape x)) 1) (1 # shape x) (elems x)
           = concat (replicate n (elems x))"
  using assms by (simp add: well_formed_def tile_ones)

lemma member_of_replicate:
  assumes "length d = p" and "i < n"
  shows "take p (drop (i * p) (concat (replicate n d))) = d"
  using assms(2)
proof (induction n arbitrary: i)
  case (Suc n)
  show ?case
  proof (cases i)
    case 0
    with assms(1) show ?thesis by simp
  next
    case (Suc j)
    with Suc.prems have "j < n" by simp
    from Suc.IH [OF this] Suc assms(1) show ?thesis by simp
  qed
qed simp

text \<open>
  Claim C5: the broadcast of line 130 succeeds for every ensemble size that is a
  non-negative int64, and right after it, before anything else touches the state, every
  member of the state is the fetched tensor: the state has \<open>nensemble\<close> slices along
  its new leading axis, and the \<open>i\<close>-th and the \<open>j\<close>-th of them are equal for all
  \<open>i\<close> and \<open>j\<close>.
\<close>

theorem members_identical_after_broadcast:
  assumes "well_formed x"
  shows "(0 \<le> nensemble \<and> nensemble < 2 ^ 63 \<longrightarrow>
            (\<exists>x1 c1. expand_ensemble nensemble x coords = Inr (x1, c1))) \<and>
         (\<forall>x1 c1. expand_ensemble nensemble x coords = Inr (x1, c1) \<longrightarrow>
            leading x1 = Some (nat nensemble) \<and>
            (\<forall>i j. i < nat nensemble \<longrightarrow> j < nat nensemble \<longrightarrow>
               select0 x1 i = Some x \<and> select0 x1 j = select0 x1 i))"
proof (intro conjI allI impI)
  assume "0 \<le> nensemble \<and> nensemble < 2 ^ 63"
  then show "\<exists>x1 c1. expand_ensemble nensemble x coords = Inr (x1, c1)"
    by (simp add: expand_ensemble_ok)
next
  fix x1 c1
  assume ex: "expand_ensemble nensemble x coords = Inr (x1, c1)"
  then have range: "0 \<le> nensemble" "nensemble < 2 ^ 63"
    by (auto simp: expand_ensemble_def repeat_def fits64_def split: if_splits)
  from ex expand_ensemble_ok [OF range, of x coords] broadcast_elems [OF assms]
  have x1: "x1 = \<lparr>shape = nat nensemble # shape x,
                  elems = concat (replicate (nat nensemble) (elems x))\<rparr>"
    by simp
  then show "leading x1 = Some (nat nensemble)" by (simp add: leading_def)
  have member: "select0 x1 i = Some x" if "i < nat nensemble" for i
    using that assms x1
    by (simp add: select0_def well_formed_def member_of_replicate)
  {
    fix i j
    assume "i < nat nensemble" "j < nat nensemble"
    then show "select0 x1 i = Some x" and "select0 x1 j = select0 x1 i"
      by (simp_all add: member)
  }
qed

theorem members_identical_after_broadcast_witness:
  "\<exists>x1 c1. expand_ensemble 2 demo_x [] = Inr (x1, c1) \<and> leading x1 = Some 2 \<and>
     select0 x1 0 = Some demo_x \<and> select0 x1 1 = select0 x1 0"
proof -
  have wf: "well_formed demo_x" by (simp add: well_formed_def demo_x_def)
  note t = members_identical_after_broadcast [OF wf, of 2 "[]"]
  from t [THEN conjunct1] obtain x1 c1
    where ex: "expand_ensemble 2 demo_x ([]::int coords) = Inr (x1, c1)"
    by auto
  from t [THEN conjunct2, rule_format, OF ex]
  have l: "leading x1 = Some (nat 2)"
    and m: "\<forall>i j. i < nat 2 \<longrightarrow> j < nat 2 \<longrightarrow>
              select0 x1 i = Some demo_x \<and> select0 x1 j = select0 x1 i"
    by simp_all
  from m [rule_format, of 0 1]
  have "select0 x1 0 = Some demo_x" "select0 x1 1 = select0 x1 0" by simp_all
  with l have "leading x1 = Some 2" "select0 x1 0 = Some demo_x" "select0 x1 1 = select0 x1 0"
    by simp_all
  with ex show ?thesis by blast
qed

end
